theory Spec2Isabelle
  imports Complex_Main
begin

section \<open>Data model\<close>

text \<open>
  A \<^verbatim>\<open>datetime.timedelta\<close> is a whole number of microseconds; it is modelled as
  an \<open>int\<close> counting microseconds. Sums, differences, comparisons and products with an
  \<open>int\<close> are exact on that count. The \<^verbatim>\<open>OverflowError\<close> of a \<^verbatim>\<open>timedelta\<close> beyond
  about 10^9 days is not modelled.
\<close>

type_synonym timedelta = int

text \<open>\<^verbatim>\<open>BbbChatEntry\<close> of \<^verbatim>\<open>bbb_client.py\<close>: the fields the converter reads.\<close>

record BbbChatEntry =
  name :: string
  message :: string
  timestamp :: timedelta

text \<open>\<^verbatim>\<open>SubtitlesEntry\<close> of \<^verbatim>\<open>subtitles.py\<close>, a frozen dataclass compared by value.\<close>

record SubtitlesEntry =
  "text" :: string
  start_time :: timedelta
  end_time :: timedelta

text \<open>The exceptions the converter's own statements can raise.\<close>

datatype error = ZeroDivisionError | IndexError

text \<open>\<^verbatim>\<open>MAX_VALID_MP4_DURATION = timedelta(microseconds=2**31 - 1)\<close>.\<close>

definition MAX_VALID_MP4_DURATION :: timedelta where
  "MAX_VALID_MP4_DURATION = 2 ^ 31 - 1"

section \<open>Arithmetic of \<^verbatim>\<open>timedelta\<close>\<close>

text \<open>
  \<^verbatim>\<open>timedelta / int\<close> rounds the quotient of the microsecond counts to the nearest
  microsecond, ties to even (\<^verbatim>\<open>_divide_and_round\<close> of \<^verbatim>\<open>datetime.py\<close>); Python's
  \<^verbatim>\<open>divmod\<close> floors, as \<open>div\<close> and \<open>mod\<close> on \<open>int\<close> do. A zero divisor raises.
\<close>

definition divide_and_round :: "int \<Rightarrow> int \<Rightarrow> int" where
  "divide_and_round a b =
     (let q = a div b; r = 2 * (a mod b);
          greater_than_half = (if b > 0 then r > b else r < b)
      in if greater_than_half \<or> (r = b \<and> q mod 2 = 1) then q + 1 else q)"

definition timedelta_div :: "timedelta \<Rightarrow> int \<Rightarrow> error + timedelta" where
  "timedelta_div d n = (if n = 0 then Inl ZeroDivisionError else Inr (divide_and_round d n))"

text \<open>
  \<^verbatim>\<open>ceil(duration / MAX_VALID_MP4_DURATION)\<close> divides two \<^verbatim>\<open>timedelta\<close>s, which is
  the true quotient of the two microsecond counts, and rounds it up. The quotient is
  taken here exactly; the double that Python computes has the same ceiling for every
  duration below 2^52 microseconds (over a century), the divisor being 2^31 - 1.
\<close>

definition ceil_quotient :: "int \<Rightarrow> int \<Rightarrow> int" where
  "ceil_quotient a b = - ((- a) div b)"

text \<open>Sequencing of a step that may raise.\<close>

definition bind_result :: "error + 'a \<Rightarrow> ('a \<Rightarrow> error + 'b) \<Rightarrow> error + 'b" where
  "bind_result r f = (case r of Inl e \<Rightarrow> Inl e | Inr v \<Rightarrow> f v)"

text \<open>\<^verbatim>\<open>xs[0]\<close>, which raises on an empty list.\<close>

definition item0 :: "'a list \<Rightarrow> error + 'a" where
  "item0 xs = (case xs of [] \<Rightarrow> Inl IndexError | x # _ \<Rightarrow> Inr x)"

section \<open>\<^verbatim>\<open>chat_conversion.py\<close>\<close>

definition build_text :: "BbbChatEntry \<Rightarrow> string" where
  "build_text entry = name entry @ '': '' @ message entry"

text \<open>
  \<^verbatim>\<open>__split_group\<close>: the loop carries \<^verbatim>\<open>current_time\<close> and yields one cue per
  entry but the last; the last cue ends at \<^verbatim>\<open>start_time + duration\<close>.
\<close>

definition split_group :: "BbbChatEntry list \<Rightarrow> timedelta \<Rightarrow> error + SubtitlesEntry list" where
  "split_group group' duration =
     (let size = length group' in
      bind_result (timedelta_div duration (int size)) (\<lambda>part.
      bind_result (item0 group') (\<lambda>first.
        let start_time' = timestamp first;
            (yielded, current_time) =
              foldl (\<lambda>(yielded, current_time) i.
                       let current = group' ! i;
                           end_time' = current_time + part
                       in (yielded @ [\<lparr>text = build_text current,
                                       start_time = current_time,
                                       end_time = end_time'\<rparr>],
                           end_time'))
                    ([], start_time') [0..<size - 1];
            current = group' ! (size - 1)
        in Inr (yielded @ [\<lparr>text = build_text current,
                            start_time = current_time,
                            end_time = start_time' + duration\<rparr>]))))"

text \<open>
  \<^verbatim>\<open>groups[entry.timestamp].append(entry)\<close> on a \<^verbatim>\<open>defaultdict(list)\<close>: the
  dictionary keeps its keys in the order of their first insertion, so it is an
  association list with unique keys, a new key going to the end.
\<close>

fun groups_append ::
  "(timedelta \<times> BbbChatEntry list) list \<Rightarrow> BbbChatEntry \<Rightarrow> (timedelta \<times> BbbChatEntry list) list"
where
  "groups_append [] entry = [(timestamp entry, [entry])]"
| "groups_append ((k, g) # rest) entry =
     (if k = timestamp entry then (k, g @ [entry]) # rest
      else (k, g) # groups_append rest entry)"

definition group_values :: "BbbChatEntry list \<Rightarrow> BbbChatEntry list list" where
  "group_values entries = map snd (foldl groups_append [] entries)"

text \<open>
  One round of the loop of \<^verbatim>\<open>to_subtitles\<close> over \<^verbatim>\<open>range(len(values) - 1)\<close>,
  from the list \<^verbatim>\<open>result\<close> so far to the extended one.
\<close>

definition to_subtitles_round ::
  "BbbChatEntry list list \<Rightarrow> timedelta \<Rightarrow> SubtitlesEntry list \<Rightarrow> nat \<Rightarrow> error + SubtitlesEntry list"
where
  "to_subtitles_round values max_duration result i =
     (let current_group = values ! i;
          next_group = values ! (i + 1)
      in bind_result (item0 current_group) (\<lambda>current_first.
         bind_result (item0 next_group) (\<lambda>next_first.
           let current_segment_time = timestamp current_first;
               next_segment_time = timestamp next_first;
               duration = min max_duration (next_segment_time - current_segment_time)
           in bind_result (split_group current_group duration) (\<lambda>cues.
                Inr (result @ cues)))))"

definition to_subtitles :: "BbbChatEntry list \<Rightarrow> timedelta \<Rightarrow> error + SubtitlesEntry list" where
  "to_subtitles entries max_duration =
     (let values = group_values entries in
      if values = [] then Inr []
      else
        bind_result
          (foldl (\<lambda>acc i. bind_result acc (\<lambda>result. to_subtitles_round values max_duration result i))
                 (Inr []) [0..<length values - 1])
          (\<lambda>result.
             let current_group = values ! (length values - 1)
             in bind_result (item0 current_group) (\<lambda>current_first.
                bind_result (split_group current_group max_duration) (\<lambda>cues.
                  Inr (result @ cues)))))"

section \<open>\<^verbatim>\<open>subtitles.py\<close>\<close>

text \<open>
  \<^verbatim>\<open>__split_entry\<close>. The divisor \<^verbatim>\<open>parts\<close> is at least 2 where the division is
  reached, so that division cannot raise.
\<close>

definition split_entry :: "SubtitlesEntry \<Rightarrow> SubtitlesEntry list" where
  "split_entry entry =
     (let duration = end_time entry - start_time entry in
      if duration \<le> MAX_VALID_MP4_DURATION then [entry]
      else
        let parts = ceil_quotient duration MAX_VALID_MP4_DURATION;
            duration_per_one = divide_and_round duration parts
        in map (\<lambda>i. let start_time' = start_time entry + duration_per_one * int i;
                         end_time' = start_time' + duration_per_one
                     in \<lparr>text = text entry, start_time = start_time', end_time = end_time'\<rparr>)
               [0..<nat (parts - 1)]
           @ [\<lparr>text = text entry,
                start_time = start_time entry + duration_per_one * (parts - 1),
                end_time = end_time entry\<rparr>])"

text \<open>
  \<^verbatim>\<open>__fill_gapes\<close> is a generator: its \<^verbatim>\<open>return entries\<close> ends the iteration
  and yields nothing.
\<close>

definition fill_gapes :: "SubtitlesEntry list \<Rightarrow> string \<Rightarrow> SubtitlesEntry list" where
  "fill_gapes entries gape_placeholder =
     (if length entries < 2 then []
      else
        let entries' = \<lparr>text = gape_placeholder, start_time = 0, end_time = 0\<rparr> # entries
        in concat (map (\<lambda>i.
             let previous_entry = entries' ! i;
                 current_entry = entries' ! (i + 1);
                 gape_duration = start_time current_entry - end_time previous_entry
             in (if gape_duration > MAX_VALID_MP4_DURATION
                 then [\<lparr>text = gape_placeholder,
                        start_time = end_time previous_entry,
                        end_time = start_time current_entry\<rparr>]
                 else [])
                @ [\<lparr>text = text current_entry,
                     start_time = start_time current_entry,
                     end_time = end_time current_entry\<rparr>])
           [0..<length entries' - 1]))"

text \<open>The list \<^verbatim>\<open>result\<close> of \<^verbatim>\<open>apply_mp4_fixes\<close> before the clamp.\<close>

definition split_filled :: "SubtitlesEntry list \<Rightarrow> string \<Rightarrow> SubtitlesEntry list" where
  "split_filled entries gape_placeholder =
     foldl (\<lambda>result entry. result @ split_entry entry) [] (fill_gapes entries gape_placeholder)"

definition apply_mp4_fixes ::
  "SubtitlesEntry list \<Rightarrow> timedelta option \<Rightarrow> string \<Rightarrow> SubtitlesEntry list"
where
  "apply_mp4_fixes entries recording_duration gape_placeholder =
     (let result = split_filled entries gape_placeholder in
      case recording_duration of
        None \<Rightarrow> result
      | Some duration \<Rightarrow>
          if result \<noteq> [] then
            result[length result - 1 :=
              \<lparr>text = text (result ! (length result - 1)),
               start_time = start_time (result ! (length result - 1)),
               end_time = min (end_time (result ! (length result - 1))) duration\<rparr>]
          else result)"

text \<open>
  \<^verbatim>\<open>build_chat_subtitles\<close> up to the file it writes: \<open>None\<close> when it returns
  \<^verbatim>\<open>None\<close> without writing, otherwise the cues it hands to \<^verbatim>\<open>to_srt\<close>. The chat is
  the list that \<^verbatim>\<open>client.get_chat()\<close> returned.
\<close>

definition CHAT_ENTRY_MAX_DURATION :: timedelta where
  "CHAT_ENTRY_MAX_DURATION = 3000000"

definition default_gape_placeholder :: string where
  "default_gape_placeholder = [CHR 0xA0]"

definition build_chat_subtitles ::
  "BbbChatEntry list \<Rightarrow> timedelta \<Rightarrow> error + SubtitlesEntry list option"
where
  "build_chat_subtitles chat recording_duration =
     bind_result (to_subtitles chat CHAT_ENTRY_MAX_DURATION) (\<lambda>subtitles.
       let subtitles' = apply_mp4_fixes subtitles (Some recording_duration) default_gape_placeholder
       in if subtitles' = [] then Inr None else Inr (Some subtitles'))"

section \<open>Definitions used to state the properties\<close>

text \<open>
  Gap filling as the specification words it: walk the cues with the end of the previous
  one (offset zero before the first); where the next cue starts more than the limit
  after it, one placeholder spanning exactly that gap comes before the next cue.
\<close>

fun gaps_filled :: "string \<Rightarrow> timedelta \<Rightarrow> SubtitlesEntry list \<Rightarrow> SubtitlesEntry list" where
  "gaps_filled ph previous_end [] = []"
| "gaps_filled ph previous_end (next_cue # rest) =
     (if start_time next_cue - previous_end > MAX_VALID_MP4_DURATION
      then [\<lparr>text = ph, start_time = previous_end, end_time = start_time next_cue\<rparr>]
      else [])
     @ next_cue # gaps_filled ph (end_time next_cue) rest"

text \<open>What one round of the loop of \<^verbatim>\<open>__fill_gapes\<close> yields.\<close>

definition gape_step :: "string \<Rightarrow> SubtitlesEntry \<Rightarrow> SubtitlesEntry \<Rightarrow> SubtitlesEntry list" where
  "gape_step ph previous_entry current_entry =
     (if start_time current_entry - end_time previous_entry > MAX_VALID_MP4_DURATION
      then [\<lparr>text = ph, start_time = end_time previous_entry,
             end_time = start_time current_entry\<rparr>]
      else [])
     @ [current_entry]"


text \<open>
  The \<open>i\<close>-th cue that the loop of \<^verbatim>\<open>__split_group\<close> yields for the group \<open>g\<close>
  starting at \<open>s\<close>, each cue being \<open>part\<close> long.
\<close>

definition group_cue :: "BbbChatEntry list \<Rightarrow> timedelta \<Rightarrow> timedelta \<Rightarrow> nat \<Rightarrow> SubtitlesEntry" where
  "group_cue g s part i =
     \<lparr>text = build_text (g ! i), start_time = s + part * int i, end_time = s + part * int i + part\<rparr>"

text \<open>
  What \<^verbatim>\<open>__split_group\<close> yields for a group that is not empty: the cues of the loop,
  then the cue of the last entry, which ends at the start of the group plus the duration.
\<close>

definition group_cues :: "BbbChatEntry list \<Rightarrow> timedelta \<Rightarrow> SubtitlesEntry list" where
  "group_cues g d =
     (let n = length g; part = divide_and_round d (int n); s = timestamp (hd g)
      in map (group_cue g s part) [0..<n - 1]
         @ [\<lparr>text = build_text (last g), start_time = s + part * int (n - 1), end_time = s + d\<rparr>])"

text \<open>
  The durations allotted to the groups as the specification words them: for each group
  but the last the smaller of the maximum duration and the distance to the timestamp of
  the next group; for the last group the maximum duration.
\<close>

fun allotted :: "BbbChatEntry list list \<Rightarrow> timedelta \<Rightarrow> timedelta list" where
  "allotted [] D = []"
| "allotted [g] D = [D]"
| "allotted (g # g' # gs) D =
     min D (timestamp (hd g') - timestamp (hd g)) # allotted (g' # gs) D"

text \<open>
  Every group of the dictionary is non-empty and stored under the timestamp of its
  first entry.
\<close>

definition keyed :: "(timedelta \<times> BbbChatEntry list) list \<Rightarrow> bool" where
  "keyed gs = (\<forall>(k, g) \<in> set gs. g \<noteq> [] \<and> timestamp (hd g) = k)"

text \<open>
  The cues of all groups in order, each group split over its allotted duration.
\<close>

definition cues_of_groups :: "BbbChatEntry list list \<Rightarrow> timedelta \<Rightarrow> SubtitlesEntry list" where
  "cues_of_groups vs D = concat (map2 group_cues vs (allotted vs D))"



section \<open>The compliance pass: auxiliary facts\<close>

lemma foldl_extend: "foldl (\<lambda>result x. result @ f x) acc xs = acc @ concat (map f xs)"
  by (induction xs arbitrary: acc) simp_all

lemma split_filled_concat:
  "split_filled entries ph = concat (map split_entry (fill_gapes entries ph))"
  by (simp add: split_filled_def foldl_extend)

lemma update_last: "xs \<noteq> [] \<Longrightarrow> xs[length xs - 1 := x] = butlast xs @ [x]"
  by (cases xs rule: rev_cases) simp_all

lemma apply_mp4_fixes_clamp:
  assumes "split_filled entries ph \<noteq> []"
  shows "apply_mp4_fixes entries (Some T) ph =
           butlast (split_filled entries ph) @
           [\<lparr>text = text (last (split_filled entries ph)),
             start_time = start_time (last (split_filled entries ph)),
             end_time = min (end_time (last (split_filled entries ph))) T\<rparr>]"
  using assms update_last [of "split_filled entries ph"]
  by (simp add: apply_mp4_fixes_def Let_def last_conv_nth)

lemma fill_gapes_pairs:
  "concat (map (\<lambda>i. gape_step ph ((p # es) ! i) (es ! i)) [0..<length es])
     = gaps_filled ph (end_time p) es"
proof (induction es arbitrary: p)
  case Nil
  show ?case by simp
next
  case (Cons e es)
  have range: "[0..<length (e # es)] = 0 # map Suc [0..<length es]"
    by (simp add: upt_conv_Cons map_Suc_upt del: upt_Suc)
  have "concat (map (\<lambda>i. gape_step ph ((p # e # es) ! i) ((e # es) ! i)) [0..<length (e # es)])
      = gape_step ph p e @ concat (map (\<lambda>i. gape_step ph ((e # es) ! i) (es ! i)) [0..<length es])"
    unfolding range by (simp add: comp_def del: upt_Suc)
  also have "\<dots> = gaps_filled ph (end_time p) (e # es)"
    unfolding Cons.IH by (simp add: gape_step_def)
  finally show ?case .
qed

lemma fill_gapes_steps:
  "2 \<le> length entries \<Longrightarrow>
   fill_gapes entries ph =
     concat (map (\<lambda>i. gape_step ph ((\<lparr>text = ph, start_time = 0, end_time = 0\<rparr> # entries) ! i)
                                   (entries ! i)) [0..<length entries])"
proof -
  assume len: "2 \<le> length entries"
  have same: "\<lparr>text = text c, start_time = start_time c, end_time = end_time c\<rparr> = c"
    for c :: SubtitlesEntry
    by simp
  from len have "fill_gapes entries ph =
      concat (map (\<lambda>i. gape_step ph ((\<lparr>text = ph, start_time = 0, end_time = 0\<rparr> # entries) ! i)
                      ((\<lparr>text = ph, start_time = 0, end_time = 0\<rparr> # entries) ! (i + 1)))
                [0..<length entries])"
    unfolding fill_gapes_def Let_def gape_step_def same by simp
  then show ?thesis by simp
qed








section \<open>The compliance pass: properties\<close>

text \<open>
  C1, as the code has it. \<^verbatim>\<open>apply_mp4_fixes\<close> has no fault to raise: it always returns a
  list. With a recording duration below the start of the last cue of the filled and
  split sequence it returns that sequence with the end of the last cue lowered to the
  recording duration (or left, where it was lower already), so that the last cue it
  returns ends before it starts.
\<close>

theorem clamp_below_start_inverts:
  assumes "split_filled entries ph \<noteq> []"
    and "T < start_time (last (split_filled entries ph))"
  shows "apply_mp4_fixes entries (Some T) ph =
           butlast (split_filled entries ph) @
           [\<lparr>text = text (last (split_filled entries ph)),
             start_time = start_time (last (split_filled entries ph)),
             end_time = min (end_time (last (split_filled entries ph))) T\<rparr>]
         \<and> end_time (last (apply_mp4_fixes entries (Some T) ph))
             < start_time (last (apply_mp4_fixes entries (Some T) ph))"
  using assms by (simp add: apply_mp4_fixes_clamp)

theorem clamp_below_start_inverts_witness:
  "split_filled [\<lparr>text = ''a'', start_time = 0, end_time = 3000000\<rparr>,
                 \<lparr>text = ''b'', start_time = 5000000, end_time = 8000000\<rparr>] ''_''
     = [\<lparr>text = ''a'', start_time = 0, end_time = 3000000\<rparr>,
        \<lparr>text = ''b'', start_time = 5000000, end_time = 8000000\<rparr>]
   \<and> apply_mp4_fixes [\<lparr>text = ''a'', start_time = 0, end_time = 3000000\<rparr>,
                      \<lparr>text = ''b'', start_time = 5000000, end_time = 8000000\<rparr>]
        (Some 4000000) ''_''
     = [\<lparr>text = ''a'', start_time = 0, end_time = 3000000\<rparr>,
        \<lparr>text = ''b'', start_time = 5000000, end_time = 4000000\<rparr>]"
proof -
  have filled:
    "split_filled [\<lparr>text = ''a'', start_time = 0, end_time = 3000000\<rparr>,
                   \<lparr>text = ''b'', start_time = 5000000, end_time = 8000000\<rparr>] ''_''
       = [\<lparr>text = ''a'', start_time = 0, end_time = 3000000\<rparr>,
          \<lparr>text = ''b'', start_time = 5000000, end_time = 8000000\<rparr>]"
    by (simp add: split_filled_def fill_gapes_def split_entry_def MAX_VALID_MP4_DURATION_def
        upt_conv_Cons del: upt_Suc)
  show ?thesis
    using clamp_below_start_inverts
      [of "[\<lparr>text = ''a'', start_time = 0, end_time = 3000000\<rparr>,
            \<lparr>text = ''b'', start_time = 5000000, end_time = 8000000\<rparr>]" "''_''" 4000000]
    by (simp add: filled)
qed

text \<open>
  C1 as stated fails: two cues, the last one from 5 s to 8 s, and a recording of 4 s.
  The pass returns, and the last cue it returns runs from 5 s to 4 s.
\<close>

theorem clamp_never_raises_counterexample:
  "apply_mp4_fixes [\<lparr>text = ''a'', start_time = 0, end_time = 3000000\<rparr>,
                    \<lparr>text = ''b'', start_time = 5000000, end_time = 8000000\<rparr>]
      (Some 4000000) ''_''
     = [\<lparr>text = ''a'', start_time = 0, end_time = 3000000\<rparr>,
        \<lparr>text = ''b'', start_time = 5000000, end_time = 4000000\<rparr>]
   \<and> end_time \<lparr>text = ''b'', start_time = 5000000, end_time = 4000000\<rparr>
       < start_time \<lparr>text = ''b'', start_time = 5000000, end_time = 4000000\<rparr>"
  by (simp add: apply_mp4_fixes_def split_filled_def fill_gapes_def split_entry_def
      MAX_VALID_MP4_DURATION_def upt_conv_Cons del: upt_Suc)

text \<open>
  C2, as the code has it. For every cue sequence of at least two cues, \<^verbatim>\<open>__fill_gapes\<close>
  walks the consecutive pairs with offset zero as the end before the first cue, and
  where the next cue starts more than the limit after the previous end it yields exactly
  one placeholder over that gap before the next cue; this includes the check before the
  first cue.
\<close>

theorem fill_gapes_walks_pairs:
  assumes "2 \<le> length entries"
  shows "fill_gapes entries ph = gaps_filled ph 0 entries"
  using fill_gapes_steps [OF assms, of ph]
    fill_gapes_pairs [of ph "\<lparr>text = ph, start_time = 0, end_time = 0\<rparr>" entries]
  by simp

theorem fill_gapes_walks_pairs_witness:
  "fill_gapes [\<lparr>text = ''a'', start_time = 3000000000, end_time = 3003000000\<rparr>,
               \<lparr>text = ''b'', start_time = 6000000000, end_time = 6003000000\<rparr>] ''_''
     = [\<lparr>text = ''_'', start_time = 0, end_time = 3000000000\<rparr>,
        \<lparr>text = ''a'', start_time = 3000000000, end_time = 3003000000\<rparr>,
        \<lparr>text = ''_'', start_time = 3003000000, end_time = 6000000000\<rparr>,
        \<lparr>text = ''b'', start_time = 6000000000, end_time = 6003000000\<rparr>]"
  using fill_gapes_walks_pairs
    [of "[\<lparr>text = ''a'', start_time = 3000000000, end_time = 3003000000\<rparr>,
          \<lparr>text = ''b'', start_time = 6000000000, end_time = 6003000000\<rparr>]" "''_''"]
  by (simp add: MAX_VALID_MP4_DURATION_def)

text \<open>
  C2 as stated fails on a single cue: one cue that starts 3000 s into the recording is
  more than the limit after offset zero, the walk of the specification puts a placeholder
  before it, and \<^verbatim>\<open>__fill_gapes\<close> yields nothing.
\<close>

theorem fill_gapes_single_counterexample:
  "fill_gapes [\<lparr>text = ''a'', start_time = 3000000000, end_time = 3003000000\<rparr>] ''_'' = []
   \<and> gaps_filled ''_'' 0 [\<lparr>text = ''a'', start_time = 3000000000, end_time = 3003000000\<rparr>]
     = [\<lparr>text = ''_'', start_time = 0, end_time = 3000000000\<rparr>,
        \<lparr>text = ''a'', start_time = 3000000000, end_time = 3003000000\<rparr>]"
  by (simp add: fill_gapes_def MAX_VALID_MP4_DURATION_def)



text \<open>
  C9. Where the filled and split sequence is not empty and the supplied recording
  duration \<open>T\<close> is less than the end of its last cue, the clamp replaces the last cue
  alone, by a cue of the same text and start that ends at \<open>T\<close>; the other cues are
  those of the sequence, unchanged.
\<close>

theorem clamp_replaces_last_only:
  assumes "split_filled entries ph \<noteq> []"
    and "T < end_time (last (split_filled entries ph))"
  shows "apply_mp4_fixes entries (Some T) ph =
           butlast (split_filled entries ph) @
           [\<lparr>text = text (last (split_filled entries ph)),
             start_time = start_time (last (split_filled entries ph)),
             end_time = T\<rparr>]
         \<and> length (apply_mp4_fixes entries (Some T) ph) = length (split_filled entries ph)
         \<and> (\<forall>i. i + 1 < length (split_filled entries ph) \<longrightarrow>
               apply_mp4_fixes entries (Some T) ph ! i = split_filled entries ph ! i)"
proof -
  have clamped: "apply_mp4_fixes entries (Some T) ph =
           butlast (split_filled entries ph) @
           [\<lparr>text = text (last (split_filled entries ph)),
             start_time = start_time (last (split_filled entries ph)),
             end_time = T\<rparr>]"
    using assms by (simp add: apply_mp4_fixes_clamp min_def)
  have "length (apply_mp4_fixes entries (Some T) ph) = length (split_filled entries ph)"
    using assms(1) by (simp add: clamped)
  moreover have "apply_mp4_fixes entries (Some T) ph ! i = split_filled entries ph ! i"
    if "i + 1 < length (split_filled entries ph)" for i
    using that by (simp add: clamped nth_append nth_butlast)
  ultimately show ?thesis using clamped by simp
qed

theorem clamp_replaces_last_only_witness:
  "apply_mp4_fixes [\<lparr>text = ''a'', start_time = 0, end_time = 3000000\<rparr>,
                    \<lparr>text = ''b'', start_time = 5000000, end_time = 8000000\<rparr>]
      (Some 6000000) ''_''
     = [\<lparr>text = ''a'', start_time = 0, end_time = 3000000\<rparr>,
        \<lparr>text = ''b'', start_time = 5000000, end_time = 6000000\<rparr>]"
proof -
  have filled:
    "split_filled [\<lparr>text = ''a'', start_time = 0, end_time = 3000000\<rparr>,
                   \<lparr>text = ''b'', start_time = 5000000, end_time = 8000000\<rparr>] ''_''
       = [\<lparr>text = ''a'', start_time = 0, end_time = 3000000\<rparr>,
          \<lparr>text = ''b'', start_time = 5000000, end_time = 8000000\<rparr>]"
    by (simp add: split_filled_def fill_gapes_def split_entry_def MAX_VALID_MP4_DURATION_def
        upt_conv_Cons del: upt_Suc)
  show ?thesis
    using clamp_replaces_last_only
      [of "[\<lparr>text = ''a'', start_time = 0, end_time = 3000000\<rparr>,
            \<lparr>text = ''b'', start_time = 5000000, end_time = 8000000\<rparr>]" "''_''" 6000000]
    by (simp add: filled)
qed

text \<open>
  C10. On fewer than two cues \<^verbatim>\<open>__fill_gapes\<close> yields nothing, so
  \<^verbatim>\<open>apply_mp4_fixes\<close> returns the empty list whatever the recording duration, a
  single cue being dropped; and where the chat gives fewer than two cues,
  \<^verbatim>\<open>build_chat_subtitles\<close> returns \<^verbatim>\<open>None\<close> as it does for an empty chat.
\<close>

theorem fewer_than_two_cues_dropped:
  assumes "length entries < 2"
  shows "fill_gapes entries ph = [] \<and> apply_mp4_fixes entries T ph = [] \<and>
         (to_subtitles chat CHAT_ENTRY_MAX_DURATION = Inr entries \<longrightarrow>
            build_chat_subtitles chat d = Inr None)"
  using assms
  by (simp add: fill_gapes_def apply_mp4_fixes_def split_filled_def build_chat_subtitles_def
      bind_result_def split: option.splits)

theorem fewer_than_two_cues_dropped_witness:
  "fill_gapes [\<lparr>text = ''n: m'', start_time = 5000000, end_time = 8000000\<rparr>] ''_'' = []
   \<and> apply_mp4_fixes [\<lparr>text = ''n: m'', start_time = 5000000, end_time = 8000000\<rparr>]
        (Some 9000000) ''_'' = []
   \<and> to_subtitles [\<lparr>name = ''n'', message = ''m'', timestamp = 5000000\<rparr>] CHAT_ENTRY_MAX_DURATION
       = Inr [\<lparr>text = ''n: m'', start_time = 5000000, end_time = 8000000\<rparr>]
   \<and> build_chat_subtitles [\<lparr>name = ''n'', message = ''m'', timestamp = 5000000\<rparr>] 9000000
       = Inr None"
proof -
  have cues:
    "to_subtitles [\<lparr>name = ''n'', message = ''m'', timestamp = 5000000\<rparr>] CHAT_ENTRY_MAX_DURATION
       = Inr [\<lparr>text = ''n: m'', start_time = 5000000, end_time = 8000000\<rparr>]"
    by (simp add: to_subtitles_def group_values_def split_group_def bind_result_def item0_def
        to_subtitles_round_def timedelta_div_def divide_and_round_def build_text_def CHAT_ENTRY_MAX_DURATION_def)
  show ?thesis
    using fewer_than_two_cues_dropped
      [of "[\<lparr>text = ''n: m'', start_time = 5000000, end_time = 8000000\<rparr>]" "''_''"
          "Some 9000000" "[\<lparr>name = ''n'', message = ''m'', timestamp = 5000000\<rparr>]" 9000000]
    by (simp add: cues)
qed

text \<open>
  C8 fails on the code. Two cues with a silence of five times the limit less 3 microseconds
  between them: the placeholder is split in five, the share of each part is rounded down
  to the limit less 1, and the last part, which ends at the end of the placeholder, is
  one microsecond longer than the limit. A second pass splits that part in two, so its
  result differs from that of the first pass.
\<close>

theorem apply_mp4_fixes_twice_differs:
  "apply_mp4_fixes [\<lparr>text = ''a'', start_time = 0, end_time = 3000000\<rparr>,
                    \<lparr>text = ''b'', start_time = 10740418232, end_time = 10743418232\<rparr>]
      (Some 10800000000) ''_''
     = [\<lparr>text = ''a'', start_time = 0, end_time = 3000000\<rparr>,
        \<lparr>text = ''_'', start_time = 3000000, end_time = 2150483646\<rparr>,
        \<lparr>text = ''_'', start_time = 2150483646, end_time = 4297967292\<rparr>,
        \<lparr>text = ''_'', start_time = 4297967292, end_time = 6445450938\<rparr>,
        \<lparr>text = ''_'', start_time = 6445450938, end_time = 8592934584\<rparr>,
        \<lparr>text = ''_'', start_time = 8592934584, end_time = 10740418232\<rparr>,
        \<lparr>text = ''b'', start_time = 10740418232, end_time = 10743418232\<rparr>]
   \<and> apply_mp4_fixes
       (apply_mp4_fixes [\<lparr>text = ''a'', start_time = 0, end_time = 3000000\<rparr>,
                         \<lparr>text = ''b'', start_time = 10740418232, end_time = 10743418232\<rparr>]
          (Some 10800000000) ''_'')
       (Some 10800000000) ''_''
     = [\<lparr>text = ''a'', start_time = 0, end_time = 3000000\<rparr>,
        \<lparr>text = ''_'', start_time = 3000000, end_time = 2150483646\<rparr>,
        \<lparr>text = ''_'', start_time = 2150483646, end_time = 4297967292\<rparr>,
        \<lparr>text = ''_'', start_time = 4297967292, end_time = 6445450938\<rparr>,
        \<lparr>text = ''_'', start_time = 6445450938, end_time = 8592934584\<rparr>,
        \<lparr>text = ''_'', start_time = 8592934584, end_time = 9666676408\<rparr>,
        \<lparr>text = ''_'', start_time = 9666676408, end_time = 10740418232\<rparr>,
        \<lparr>text = ''b'', start_time = 10740418232, end_time = 10743418232\<rparr>]
   \<and> MAX_VALID_MP4_DURATION
       < end_time \<lparr>text = ''_'', start_time = 8592934584, end_time = 10740418232\<rparr>
         - start_time \<lparr>text = ''_'', start_time = 8592934584, end_time = 10740418232\<rparr>"
proof -
  have once:
    "apply_mp4_fixes [\<lparr>text = ''a'', start_time = 0, end_time = 3000000\<rparr>,
                      \<lparr>text = ''b'', start_time = 10740418232, end_time = 10743418232\<rparr>]
        (Some 10800000000) ''_''
       = [\<lparr>text = ''a'', start_time = 0, end_time = 3000000\<rparr>,
          \<lparr>text = ''_'', start_time = 3000000, end_time = 2150483646\<rparr>,
          \<lparr>text = ''_'', start_time = 2150483646, end_time = 4297967292\<rparr>,
          \<lparr>text = ''_'', start_time = 4297967292, end_time = 6445450938\<rparr>,
          \<lparr>text = ''_'', start_time = 6445450938, end_time = 8592934584\<rparr>,
          \<lparr>text = ''_'', start_time = 8592934584, end_time = 10740418232\<rparr>,
          \<lparr>text = ''b'', start_time = 10740418232, end_time = 10743418232\<rparr>]"
    by (simp add: apply_mp4_fixes_def split_filled_def fill_gapes_def split_entry_def
        ceil_quotient_def divide_and_round_def MAX_VALID_MP4_DURATION_def
        upt_conv_Cons del: upt_Suc)
  show ?thesis
    unfolding once
    by (simp add: apply_mp4_fixes_def split_filled_def fill_gapes_def split_entry_def
        ceil_quotient_def divide_and_round_def MAX_VALID_MP4_DURATION_def
        upt_conv_Cons del: upt_Suc)
qed

section \<open>The grouper: auxiliary facts\<close>

lemma bind_result_simps [simp]:
  "bind_result (Inr v) f = f v"
  "bind_result (Inl e) f = Inl e"
  by (simp_all add: bind_result_def)

lemma item0_hd: "xs \<noteq> [] \<Longrightarrow> item0 xs = Inr (hd xs)"
  by (cases xs) (simp_all add: item0_def)

lemma split_group_loop:
  "foldl (\<lambda>(yielded, current_time) i.
            (yielded @ [\<lparr>text = build_text (g ! i), start_time = current_time,
                         end_time = current_time + part\<rparr>], current_time + part))
         ([], s) [0..<k]
     = (map (group_cue g s part) [0..<k], s + part * int k)"
  by (induction k) (simp_all add: group_cue_def algebra_simps)

lemma split_group_cues:
  assumes "g \<noteq> []"
  shows "split_group g d = Inr (group_cues g d)"
proof -
  from assms have first: "item0 g = Inr (hd g)"
    by (cases g) (simp_all add: item0_def)
  show ?thesis
    using assms
    by (simp add: split_group_def Let_def timedelta_div_def bind_result_def first
        split_group_loop group_cues_def last_conv_nth)
qed

lemma length_allotted [simp]: "length (allotted vs D) = length vs"
  by (induction vs D rule: allotted.induct) simp_all

lemma to_subtitles_round_cues:
  assumes "vs ! k \<noteq> []" and "vs ! (k + 1) \<noteq> []"
  shows "to_subtitles_round vs D result k =
           Inr (result @ group_cues (vs ! k)
                  (min D (timestamp (hd (vs ! (k + 1))) - timestamp (hd (vs ! k)))))"
proof -
  from assms have first: "item0 (vs ! k) = Inr (hd (vs ! k))"
    "item0 (vs ! (k + 1)) = Inr (hd (vs ! (k + 1)))"
    by (simp_all add: item0_def split: list.splits)
  show ?thesis
    unfolding to_subtitles_round_def Let_def first
    by (simp add: split_group_cues [OF assms(1)])
qed

lemma to_subtitles_loop:
  assumes "\<forall>g \<in> set vs. g \<noteq> []" and "k < length vs"
  shows "foldl (\<lambda>acc i. bind_result acc (\<lambda>result. to_subtitles_round vs D result i))
                 (Inr []) [0..<k]
         = Inr (concat (map (\<lambda>i. group_cues (vs ! i)
                   (min D (timestamp (hd (vs ! (i + 1))) - timestamp (hd (vs ! i))))) [0..<k]))"
  using assms(2)
proof (induction k)
  case 0
  show ?case by simp
next
  case (Suc k)
  from Suc.prems assms(1) have ne: "vs ! k \<noteq> []" "vs ! (k + 1) \<noteq> []"
    by (simp_all add: all_set_conv_all_nth)
  from Suc have IH: "foldl (\<lambda>acc i. bind_result acc (\<lambda>result. to_subtitles_round vs D result i))
                 (Inr []) [0..<k]
         = Inr (concat (map (\<lambda>i. group_cues (vs ! i)
                   (min D (timestamp (hd (vs ! (i + 1))) - timestamp (hd (vs ! i))))) [0..<k]))"
    by simp
  show ?case
    using to_subtitles_round_cues [OF ne, of D]
    by (simp add: IH)
qed

lemma walk_index:
  "vs \<noteq> [] \<Longrightarrow>
   concat (map (\<lambda>i. group_cues (vs ! i)
                   (min D (timestamp (hd (vs ! (i + 1))) - timestamp (hd (vs ! i)))))
             [0..<length vs - 1])
     @ group_cues (vs ! (length vs - 1)) D
   = concat (map2 group_cues vs (allotted vs D))"
proof (induction vs D rule: allotted.induct)
  case (1 D)
  then show ?case by simp
next
  case (2 g D)
  show ?case by simp
next
  case (3 g g' gs D)
  have range: "[0..<length (g # g' # gs) - 1] = 0 # map Suc [0..<length (g' # gs) - 1]"
    by (simp add: upt_conv_Cons map_Suc_upt del: upt_Suc)
  show ?case
    unfolding range using "3.IH"
    by (simp add: comp_def del: upt_Suc)
qed

lemma to_subtitles_groups:
  assumes "\<forall>g \<in> set (group_values entries). g \<noteq> []"
  shows "to_subtitles entries D =
     Inr (concat (map2 group_cues (group_values entries) (allotted (group_values entries) D)))"
proof (cases "group_values entries = []")
  case True
  then show ?thesis by (simp add: to_subtitles_def)
next
  case False
  define vs where "vs = group_values entries"
  from False have ne: "vs \<noteq> []" by (simp add: vs_def)
  then have k: "length vs - 1 < length vs" by simp
  from assms have all: "\<forall>g \<in> set vs. g \<noteq> []" by (simp add: vs_def)
  with ne have lastne: "vs ! (length vs - 1) \<noteq> []" by (simp add: all_set_conv_all_nth)
  then have first: "item0 (vs ! (length vs - 1)) = Inr (hd (vs ! (length vs - 1)))"
    by (simp add: item0_def split: list.splits)
  have "to_subtitles entries D = Inr (concat (map (\<lambda>i. group_cues (vs ! i)
                   (min D (timestamp (hd (vs ! (i + 1))) - timestamp (hd (vs ! i)))))
             [0..<length vs - 1])
     @ group_cues (vs ! (length vs - 1)) D)"
    using ne to_subtitles_loop [OF all k, of D] first split_group_cues [OF lastne, of D]
    by (simp add: to_subtitles_def Let_def vs_def [symmetric])
  then show ?thesis
    using walk_index [OF ne, of D] by (simp add: vs_def)
qed


lemma keyed_append: "keyed gs \<Longrightarrow> keyed (groups_append gs e)"
  by (induction gs e rule: groups_append.induct) (auto simp: keyed_def)

lemma keyed_groups: "keyed (foldl groups_append [] entries)"
proof (induction entries rule: rev_induct)
  case Nil
  show ?case by (simp add: keyed_def)
next
  case (snoc e es)
  then show ?case by (simp add: keyed_append)
qed

lemma group_values_nonempty: "\<forall>g \<in> set (group_values entries). g \<noteq> []"
  using keyed_groups [of entries] by (auto simp: group_values_def keyed_def)





lemma cues_of_groups_simps [simp]:
  "cues_of_groups [] D = []"
  "cues_of_groups [g] D = group_cues g D"
  "cues_of_groups (g # g' # gs) D =
     group_cues g (min D (timestamp (hd g') - timestamp (hd g))) @ cues_of_groups (g' # gs) D"
  by (simp_all add: cues_of_groups_def)


lemma length_group_cues: "g \<noteq> [] \<Longrightarrow> length (group_cues g d) = length g"
  by (simp add: group_cues_def Let_def)

lemma group_cues_nonempty [simp]: "group_cues g d \<noteq> []"
  by (simp add: group_cues_def Let_def)

lemma group_cues_nth:
  assumes "i < length g"
  shows "group_cues g d ! i =
     (if i + 1 < length g
      then group_cue g (timestamp (hd g)) (divide_and_round d (int (length g))) i
      else \<lparr>text = build_text (last g),
            start_time = timestamp (hd g) + divide_and_round d (int (length g)) * int (length g - 1),
            end_time = timestamp (hd g) + d\<rparr>)"
proof (cases "i + 1 < length g")
  case True
  then show ?thesis by (simp add: group_cues_def Let_def nth_append)
next
  case False
  with assms have "i = length g - 1" by simp
  then show ?thesis by (simp add: group_cues_def Let_def nth_append)
qed

lemma group_cues_hd: "start_time (hd (group_cues g d)) = timestamp (hd g)"
proof (cases "length g - 1")
  case 0
  then show ?thesis by (simp add: group_cues_def Let_def)
next
  case (Suc m)
  then show ?thesis
    by (simp add: group_cues_def Let_def upt_conv_Cons group_cue_def del: upt_Suc)
qed

lemma group_cues_last:
  "end_time (last (group_cues g d)) = timestamp (hd g) + d"
  "start_time (last (group_cues g d))
     = timestamp (hd g) + divide_and_round d (int (length g)) * int (length g - 1)"
  by (simp_all add: group_cues_def Let_def)

lemma run_contiguous:
  "successively (\<lambda>a b. end_time a = start_time b)
     (map (group_cue g s part) [0..<m]
        @ [\<lparr>text = t, start_time = s + part * int m, end_time = e\<rparr>])"
proof (cases m)
  case 0
  then show ?thesis by simp
next
  case (Suc k)
  have "successively (\<lambda>a b. end_time a = start_time b) (map (group_cue g s part) [0..<m])"
    by (simp add: successively_conv_nth group_cue_def algebra_simps)
  then show ?thesis
    by (simp add: successively_append_iff) (simp add: Suc group_cue_def algebra_simps)
qed



lemma group_cues_contiguous:
  "successively (\<lambda>a b. end_time a = start_time b) (group_cues g d)"
  unfolding group_cues_def Let_def by (rule run_contiguous)











section \<open>The grouper: properties\<close>

text \<open>
  C6. For a group of \<open>n\<close> entries and a duration \<open>d\<close>, \<^verbatim>\<open>__split_group\<close> yields
  \<open>n\<close> cues with the texts of the entries in their order; each cue before the last
  spans \<open>d / n\<close> (the division of a \<^verbatim>\<open>timedelta\<close> by an \<^verbatim>\<open>int\<close>) and ends where
  the next one starts; the first cue starts at the timestamp of the group and the last
  ends at that timestamp plus \<open>d\<close>. Three entries at 10 s with 3 s give the cues
  10 s to 11 s, 11 s to 12 s and 12 s to 13 s.
\<close>

theorem split_group_spec:
  assumes "g \<noteq> []"
  shows "\<exists>cues. split_group g d = Inr cues
       \<and> length cues = length g
       \<and> map text cues = map build_text g
       \<and> (\<forall>i. i + 1 < length g \<longrightarrow>
             end_time (cues ! i) - start_time (cues ! i) = divide_and_round d (int (length g))
             \<and> end_time (cues ! i) = start_time (cues ! (i + 1)))
       \<and> start_time (hd cues) = timestamp (hd g)
       \<and> end_time (last cues) = timestamp (hd g) + d"
proof -
  have texts: "map text (group_cues g d) = map build_text g"
  proof (rule nth_equalityI)
    show "length (map text (group_cues g d)) = length (map build_text g)"
      using assms by (simp add: length_group_cues)
  next
    fix i assume "i < length (map text (group_cues g d))"
    with assms have i: "i < length g" by (simp add: length_group_cues)
    then show "map text (group_cues g d) ! i = map build_text g ! i"
      using assms
      by (cases "i + 1 < length g")
         (auto simp: length_group_cues group_cues_nth group_cue_def last_conv_nth
               intro!: arg_cong [where f = build_text] arg_cong [where f = "nth g"])
  qed
  have shares: "end_time (group_cues g d ! i) - start_time (group_cues g d ! i)
          = divide_and_round d (int (length g))
      \<and> end_time (group_cues g d ! i) = start_time (group_cues g d ! (i + 1))"
    if "i + 1 < length g" for i
  proof -
    from that assms have "Suc i < length (group_cues g d)" by (simp add: length_group_cues)
    from successively_nth [OF group_cues_contiguous this]
    have "end_time (group_cues g d ! i) = start_time (group_cues g d ! (i + 1))" by simp
    moreover from that have "group_cues g d ! i
        = group_cue g (timestamp (hd g)) (divide_and_round d (int (length g))) i"
      by (simp add: group_cues_nth)
    ultimately show ?thesis by (simp add: group_cue_def)
  qed
  show ?thesis
  proof (intro exI [of _ "group_cues g d"] conjI)
    show "split_group g d = Inr (group_cues g d)"
      using assms by (rule split_group_cues)
    show "length (group_cues g d) = length g"
      using assms by (rule length_group_cues)
    show "map text (group_cues g d) = map build_text g"
      by (rule texts)
    show "\<forall>i. i + 1 < length g \<longrightarrow>
             end_time (group_cues g d ! i) - start_time (group_cues g d ! i)
               = divide_and_round d (int (length g))
             \<and> end_time (group_cues g d ! i) = start_time (group_cues g d ! (i + 1))"
      using shares by blast
    show "start_time (hd (group_cues g d)) = timestamp (hd g)"
      by (rule group_cues_hd)
    show "end_time (last (group_cues g d)) = timestamp (hd g) + d"
      by (rule group_cues_last(1))
  qed
qed

theorem split_group_spec_witness:
  "split_group [\<lparr>name = ''n'', message = ''a'', timestamp = 10000000\<rparr>,
                \<lparr>name = ''n'', message = ''b'', timestamp = 10000000\<rparr>,
                \<lparr>name = ''n'', message = ''c'', timestamp = 10000000\<rparr>] 3000000
     = Inr [\<lparr>text = ''n: a'', start_time = 10000000, end_time = 11000000\<rparr>,
            \<lparr>text = ''n: b'', start_time = 11000000, end_time = 12000000\<rparr>,
            \<lparr>text = ''n: c'', start_time = 12000000, end_time = 13000000\<rparr>]"
  using split_group_spec
    [of "[\<lparr>name = ''n'', message = ''a'', timestamp = 10000000\<rparr>,
          \<lparr>name = ''n'', message = ''b'', timestamp = 10000000\<rparr>,
          \<lparr>name = ''n'', message = ''c'', timestamp = 10000000\<rparr>]" 3000000]
  by (simp add: split_group_def bind_result_def item0_def timedelta_div_def
      divide_and_round_def build_text_def upt_conv_Cons del: upt_Suc)

text \<open>
  C5. The output of \<^verbatim>\<open>to_subtitles\<close> is, group after group, what \<^verbatim>\<open>__split_group\<close>
  returns for the group and its allotted duration: the smaller of \<open>D\<close> and the distance
  to the timestamp of the next group, and \<open>D\<close> for the last group. The cues of a
  group start at its timestamp and end at its timestamp plus the allotted duration.
\<close>

theorem to_subtitles_allotted:
  "to_subtitles entries D =
     Inr (concat (map2 group_cues (group_values entries) (allotted (group_values entries) D)))
   \<and> list_all2 (\<lambda>g d. split_group g d = Inr (group_cues g d)
                  \<and> start_time (hd (group_cues g d)) = timestamp (hd g)
                  \<and> end_time (last (group_cues g d)) = timestamp (hd g) + d)
       (group_values entries) (allotted (group_values entries) D)"
proof -
  have "split_group (group_values entries ! i) d = Inr (group_cues (group_values entries ! i) d)"
    if "i < length (group_values entries)" for i d
    using that group_values_nonempty [of entries]
    by (intro split_group_cues) (simp add: all_set_conv_all_nth)
  then show ?thesis
    using to_subtitles_groups [OF group_values_nonempty, of entries D]
    by (simp add: list_all2_conv_all_nth group_cues_hd group_cues_last)
qed

theorem to_subtitles_allotted_witness:
  "allotted (group_values [\<lparr>name = ''n'', message = ''a'', timestamp = 10000000\<rparr>,
                           \<lparr>name = ''n'', message = ''b'', timestamp = 10000000\<rparr>,
                           \<lparr>name = ''n'', message = ''c'', timestamp = 12000000\<rparr>,
                           \<lparr>name = ''n'', message = ''d'', timestamp = 20000000\<rparr>]) 3000000
     = [2000000, 3000000, 3000000]
   \<and> to_subtitles [\<lparr>name = ''n'', message = ''a'', timestamp = 10000000\<rparr>,
                   \<lparr>name = ''n'', message = ''b'', timestamp = 10000000\<rparr>,
                   \<lparr>name = ''n'', message = ''c'', timestamp = 12000000\<rparr>,
                   \<lparr>name = ''n'', message = ''d'', timestamp = 20000000\<rparr>] 3000000
     = Inr [\<lparr>text = ''n: a'', start_time = 10000000, end_time = 11000000\<rparr>,
            \<lparr>text = ''n: b'', start_time = 11000000, end_time = 12000000\<rparr>,
            \<lparr>text = ''n: c'', start_time = 12000000, end_time = 15000000\<rparr>,
            \<lparr>text = ''n: d'', start_time = 20000000, end_time = 23000000\<rparr>]"
  using to_subtitles_allotted
    [of "[\<lparr>name = ''n'', message = ''a'', timestamp = 10000000\<rparr>,
          \<lparr>name = ''n'', message = ''b'', timestamp = 10000000\<rparr>,
          \<lparr>name = ''n'', message = ''c'', timestamp = 12000000\<rparr>,
          \<lparr>name = ''n'', message = ''d'', timestamp = 20000000\<rparr>]" 3000000]
  by (simp add: group_values_def group_cues_def group_cue_def divide_and_round_def
      build_text_def upt_conv_Cons del: upt_Suc)







end
